theory Spec2Isabelle
  imports Complex_Main
begin

section \<open>Python strings\<close>

text \<open>
  The coordinate text of the form is modelled as a \<^typ>\<open>string\<close>: a list of characters with
  code points below 256. The functions of this section are the methods of Python's \<open>str\<close>
  that \<open>parse_coordinates\<close> and \<open>update_summary\<close> call.
\<close>

definition isspace :: "char \<Rightarrow> bool" where
  \<comment> \<open>\<open>str.isspace\<close> for one character: the code points 9-13, 28-32, 133 and 160.\<close>
  "isspace c =
     (let n = (of_char c :: nat)
      in (9 \<le> n \<and> n \<le> 13) \<or> (28 \<le> n \<and> n \<le> 32) \<or> n = 133 \<or> n = 160)"

definition isdigit :: "char \<Rightarrow> bool" where
  "isdigit c = (let n = (of_char c :: nat) in 48 \<le> n \<and> n \<le> 57)"

definition strip :: "string \<Rightarrow> string" where
  \<comment> \<open>\<open>s.strip()\<close>: leading and trailing whitespace removed.\<close>
  "strip s = rev (dropWhile isspace (rev (dropWhile isspace s)))"

fun split :: "char \<Rightarrow> string \<Rightarrow> string list" where
  \<comment> \<open>\<open>s.split(sep)\<close> for a one-character separator: never empty, one more piece than separators.\<close>
  "split sep [] = [[]]"
| "split sep (c # cs) =
     (if c = sep then [] # split sep cs
      else (case split sep cs of
              [] \<Rightarrow> [[c]]
            | p # ps \<Rightarrow> (c # p) # ps))"

fun join :: "string \<Rightarrow> string list \<Rightarrow> string" where
  \<comment> \<open>\<open>sep.join(parts)\<close>\<close>
  "join sep [] = []"
| "join sep [p] = p"
| "join sep (p # q # ps) = p @ sep @ join sep (q # ps)"

definition newline :: char where
  "newline = CHR 0x0A"

definition comma :: char where
  "comma = CHR '',''"

definition quote :: char where
  "quote = CHR 0x27"

definition hex_digit :: "nat \<Rightarrow> char" where
  "hex_digit n = (if n < 10 then char_of (48 + n) else char_of (87 + n))"

definition repr_char :: "char \<Rightarrow> char \<Rightarrow> string" where
  \<comment> \<open>One character of \<open>repr(s)\<close>, inside the quote character \<open>q\<close>.\<close>
  "repr_char q c =
     (let n = (of_char c :: nat)
      in if c = q \<or> c = CHR 0x5C then [CHR 0x5C, c]
         else if n = 9 then [CHR 0x5C, CHR ''t'']
         else if n = 10 then [CHR 0x5C, CHR ''n'']
         else if n = 13 then [CHR 0x5C, CHR ''r'']
         else if n < 32 \<or> (127 \<le> n \<and> n \<le> 160) \<or> n = 173
           then [CHR 0x5C, CHR ''x'', hex_digit (n div 16), hex_digit (n mod 16)]
         else [c])"

definition repr_str :: "string \<Rightarrow> string" where
  \<comment> \<open>\<open>repr(s)\<close>: double quotes only when \<open>s\<close> has a single quote and no double quote.\<close>
  "repr_str s =
     (let q = (if quote \<in> set s \<and> CHR 0x22 \<notin> set s then CHR 0x22 else quote)
      in [q] @ concat (map (repr_char q) s) @ [q])"

function digits_of :: "int \<Rightarrow> string" where
  \<comment> \<open>The decimal digits of \<open>n \<ge> 0\<close>.\<close>
  "digits_of n =
     (if n < 10 then [char_of (48 + n)]
      else digits_of (n div 10) @ [char_of (48 + n mod 10)])"
  by pat_completeness auto
termination
  by (relation "measure nat") auto

declare digits_of.simps [simp del]

definition str_int :: "int \<Rightarrow> string" where
  \<comment> \<open>\<open>str(i)\<close>\<close>
  "str_int i = (if i < 0 then CHR ''-'' # digits_of (- i) else digits_of i)"

section \<open>Python floats\<close>

text \<open>
  A Python \<open>float\<close> is an IEEE 754 binary64 value. A finite one is modelled by the rational
  number it denotes (\<open>-0.0\<close> apart, which only its \<open>repr\<close> tells from \<open>0.0\<close>); the
  infinities and NaN are constructors of their own. \<open>round_binary64\<close> is the rounding of an
  exact decimal value to the nearest binary64, ties to even, that \<open>float(s)\<close> performs.
\<close>

datatype pyfloat = Finite rat | NegZero | PosInf | NegInf | NaN

function bit_length :: "int \<Rightarrow> int" where
  \<comment> \<open>The number of binary digits of \<open>n\<close>.\<close>
  "bit_length n = (if n \<le> 0 then 0 else 1 + bit_length (n div 2))"
  by pat_completeness auto
termination
  by (relation "measure nat") auto

declare bit_length.simps [simp del]

function dec_length :: "int \<Rightarrow> int" where
  \<comment> \<open>The number of decimal digits of \<open>n\<close>.\<close>
  "dec_length n = (if n \<le> 0 then 0 else 1 + dec_length (n div 10))"
  by pat_completeness auto
termination
  by (relation "measure nat") auto

declare dec_length.simps [simp del]

definition ilog2 :: "rat \<Rightarrow> int" where
  \<comment> \<open>\<open>floor (log2 a)\<close> for \<open>a > 0\<close>\<close>
  "ilog2 a =
     (case quotient_of a of (n, d) \<Rightarrow>
        let k = bit_length n - bit_length d
        in if 2 powi k \<le> a then k else k - 1)"

definition ilog10 :: "rat \<Rightarrow> int" where
  \<comment> \<open>\<open>floor (log10 a)\<close> for \<open>a > 0\<close>\<close>
  "ilog10 a =
     (case quotient_of a of (n, d) \<Rightarrow>
        let k = dec_length n - dec_length d
        in if 10 powi k \<le> a then k else k - 1)"

definition round_half_even :: "rat \<Rightarrow> int" where
  "round_half_even x =
     (let f = \<lfloor>x\<rfloor>; r = x - of_int f
      in if r < 1 / 2 then f
         else if 1 / 2 < r then f + 1
         else if even f then f else f + 1)"

definition signed_zero :: "bool \<Rightarrow> pyfloat" where
  "signed_zero neg = (if neg then NegZero else Finite 0)"

definition round_binary64 :: "bool \<Rightarrow> rat \<Rightarrow> pyfloat" where
  \<comment> \<open>The binary64 nearest to \<open>\<plusminus>a\<close>, for a magnitude \<open>a \<ge> 0\<close>: 53 significant bits, exponents
      from -1022 (subnormals below), overflow to infinity.\<close>
  "round_binary64 neg a =
     (if a = 0 then signed_zero neg
      else
        let e = max (ilog2 a) (- 1022);
            ulp = 2 powi (e - 52);
            m = round_half_even (a / ulp)
        in if 1023 < e \<or> (e = 1023 \<and> m = 2 ^ 53) then (if neg then NegInf else PosInf)
           else if m = 0 then signed_zero neg
           else Finite (if neg then - (of_int m * ulp) else of_int m * ulp))"

subsection \<open>\<open>float(s)\<close>\<close>

fun remove_underscores :: "char \<Rightarrow> string \<Rightarrow> string option" where
  \<comment> \<open>An underscore is accepted between two digits only, and dropped; the first argument
      is the previous character.\<close>
  "remove_underscores prev [] = (if prev = CHR ''_'' then None else Some [])"
| "remove_underscores prev (c # cs) =
     (if c = CHR ''_'' then
        (if isdigit prev then remove_underscores c cs else None)
      else if prev = CHR ''_'' \<and> \<not> isdigit c then None
      else map_option ((#) c) (remove_underscores c cs))"

definition digit_value :: "char \<Rightarrow> int" where
  "digit_value c = of_char c - 48"

definition int_of_digits :: "string \<Rightarrow> int" where
  "int_of_digits ds = foldl (\<lambda>n c. 10 * n + digit_value c) 0 ds"

definition lower :: "string \<Rightarrow> string" where
  \<comment> \<open>\<open>s.lower()\<close> on the ASCII letters\<close>
  "lower s = map (\<lambda>c. let n = (of_char c :: nat) in if 65 \<le> n \<and> n \<le> 90 then char_of (n + 32) else c) s"

definition take_sign :: "string \<Rightarrow> bool \<times> string" where
  "take_sign s =
     (case s of
        [] \<Rightarrow> (False, [])
      | c # cs \<Rightarrow> if c = CHR ''-'' then (True, cs) else if c = CHR ''+'' then (False, cs) else (False, s))"

definition parse_exponent :: "string \<Rightarrow> int option" where
  \<comment> \<open>What follows the mantissa: nothing, or \<open>e\<close>/\<open>E\<close>, an optional sign and digits.\<close>
  "parse_exponent s =
     (case s of
        [] \<Rightarrow> Some 0
      | c # cs \<Rightarrow>
          if c = CHR ''e'' \<or> c = CHR ''E'' then
            (case take_sign cs of (neg, ds) \<Rightarrow>
               if ds \<noteq> [] \<and> list_all isdigit ds
               then Some (if neg then - int_of_digits ds else int_of_digits ds)
               else None)
          else None)"

definition parse_decimal :: "bool \<Rightarrow> string \<Rightarrow> pyfloat option" where
  \<comment> \<open>Digits, an optional point and digits (one digit at least), an optional exponent.\<close>
  "parse_decimal neg s =
     (let ip = takeWhile isdigit s;
          r = dropWhile isdigit s;
          point = (r \<noteq> [] \<and> hd r = CHR ''.'');
          fp = (if point then takeWhile isdigit (tl r) else []);
          rest = (if point then dropWhile isdigit (tl r) else r)
      in if ip = [] \<and> fp = [] then None
         else (case parse_exponent rest of
                 None \<Rightarrow> None
               | Some ex \<Rightarrow>
                   Some (round_binary64 neg
                     (of_int (int_of_digits (ip @ fp)) * 10 powi (ex - int (length fp))))))"

definition float_space :: "char \<Rightarrow> bool" where
  \<comment> \<open>The blanks that \<open>float\<close> strips: the six ASCII ones (9-13 and 32), and 133 and 160,
      which it reads as spaces. The separators 28-31 are not among them.\<close>
  "float_space c =
     (let n = (of_char c :: nat) in (9 \<le> n \<and> n \<le> 13) \<or> n = 32 \<or> n = 133 \<or> n = 160)"

definition float_strip :: "string \<Rightarrow> string" where
  "float_strip s = rev (dropWhile float_space (rev (dropWhile float_space s)))"

definition py_float :: "string \<Rightarrow> pyfloat option" where
  \<comment> \<open>\<open>float(s)\<close>; \<open>None\<close> is its \<open>ValueError\<close>.\<close>
  "py_float s =
     (case remove_underscores (CHR 0x00) (float_strip s) of
        None \<Rightarrow> None
      | Some t \<Rightarrow>
          (case take_sign t of (neg, u) \<Rightarrow>
             if lower u = ''inf'' \<or> lower u = ''infinity'' then Some (if neg then NegInf else PosInf)
             else if lower u = ''nan'' then Some NaN
             else parse_decimal neg u))"

subsection \<open>Comparison with an integer, equality\<close>

fun int_le_float :: "int \<Rightarrow> pyfloat \<Rightarrow> bool" where
  \<comment> \<open>\<open>i <= x\<close>\<close>
  "int_le_float i (Finite q) = (of_int i \<le> q)"
| "int_le_float i NegZero = (i \<le> 0)"
| "int_le_float i PosInf = True"
| "int_le_float i NegInf = False"
| "int_le_float i NaN = False"

fun float_le_int :: "pyfloat \<Rightarrow> int \<Rightarrow> bool" where
  \<comment> \<open>\<open>x <= i\<close>\<close>
  "float_le_int (Finite q) i = (q \<le> of_int i)"
| "float_le_int NegZero i = (0 \<le> i)"
| "float_le_int PosInf i = False"
| "float_le_int NegInf i = True"
| "float_le_int NaN i = False"

fun float_eq :: "pyfloat \<Rightarrow> pyfloat \<Rightarrow> bool" where
  \<comment> \<open>\<open>x == y\<close>: NaN equals nothing, the two zeros are equal.\<close>
  "float_eq NaN y = False"
| "float_eq x NaN = False"
| "float_eq NegZero y = (y = NegZero \<or> y = Finite 0)"
| "float_eq x NegZero = (x = Finite 0)"
| "float_eq x y = (x = y)"

subsection \<open>\<open>repr(x)\<close>\<close>

text \<open>
  \<open>repr\<close> of a float is the shortest decimal string that \<open>float\<close> reads back as the same
  value (the nearest to the value among the shortest ones), printed with a point and at
  least one decimal, or with an exponent when the decimal point would lie more than 16
  digits to the right of the first digit or more than 3 zeros to its left.
\<close>

definition candidate :: "rat \<Rightarrow> int \<Rightarrow> (int \<times> int) option" where
  \<comment> \<open>A multiple \<open>c * 10 ^ x\<close> next to \<open>a\<close> (below or above) that rounds to \<open>a\<close>, if any.\<close>
  "candidate a x =
     (let scale = 10 powi x;
          lo = \<lfloor>a / scale\<rfloor>;
          hi = lo + 1;
          lo_ok = (round_binary64 False (of_int lo * scale) = Finite a);
          hi_ok = (round_binary64 False (of_int hi * scale) = Finite a);
          dl = a - of_int lo * scale;
          dh = of_int hi * scale - a
      in if lo_ok \<and> hi_ok then
           (if dl < dh \<or> (dl = dh \<and> even lo) then Some (lo, x) else Some (hi, x))
         else if lo_ok then Some (lo, x)
         else if hi_ok then Some (hi, x)
         else None)"

fun shortest_digits :: "nat \<Rightarrow> rat \<Rightarrow> int \<Rightarrow> int \<times> int" where
  \<comment> \<open>One more digit at each step; 17 digits always suffice for a binary64.\<close>
  "shortest_digits 0 a x = (round_half_even (a / 10 powi x), x)"
| "shortest_digits (Suc n) a x =
     (case candidate a x of
        Some r \<Rightarrow> r
      | None \<Rightarrow> shortest_digits n a (x - 1))"

function strip_zeros :: "int \<Rightarrow> int \<Rightarrow> int \<times> int" where
  \<comment> \<open>\<open>c * 10 ^ x\<close> without the trailing zeros of \<open>c\<close>\<close>
  "strip_zeros c x =
     (if 0 < c \<and> c mod 10 = 0 then strip_zeros (c div 10) (x + 1) else (c, x))"
  by pat_completeness auto
termination
  by (relation "measure (\<lambda>(c, x). nat c)") auto

declare strip_zeros.simps [simp del]

definition format_exponent :: "int \<Rightarrow> string" where
  \<comment> \<open>a sign and two digits at least\<close>
  "format_exponent e =
     (if e < 0 then ''-'' else ''+'') @ (if \<bar>e\<bar> < 10 then ''0'' else []) @ digits_of \<bar>e\<bar>"

definition format_repr :: "string \<Rightarrow> int \<Rightarrow> string" where
  \<comment> \<open>The digits \<open>ds\<close> with the decimal point after the first \<open>decpt\<close> of them.\<close>
  "format_repr ds decpt =
     (let n = int (length ds)
      in if decpt \<le> - 4 \<or> 16 < decpt then
           [hd ds] @ (if tl ds = [] then [] else CHR ''.'' # tl ds)
             @ ''e'' @ format_exponent (decpt - 1)
         else if decpt \<le> 0 then ''0.'' @ replicate (nat (- decpt)) (CHR ''0'') @ ds
         else if decpt < n then take (nat decpt) ds @ ''.'' @ drop (nat decpt) ds
         else ds @ replicate (nat (decpt - n)) (CHR ''0'') @ ''.0'')"

definition repr_positive :: "rat \<Rightarrow> string" where
  "repr_positive a =
     (case shortest_digits 17 a (ilog10 a) of (c, x) \<Rightarrow>
        (case strip_zeros c x of (c', x') \<Rightarrow>
           format_repr (digits_of c') (x' + int (length (digits_of c')))))"

fun float_repr :: "pyfloat \<Rightarrow> string" where
  \<comment> \<open>\<open>repr(x)\<close>, which is what an f-string prints for \<open>{x}\<close>\<close>
  "float_repr (Finite q) =
     (if q = 0 then ''0.0''
      else if q < 0 then CHR ''-'' # repr_positive (- q)
      else repr_positive q)"
| "float_repr NegZero = ''-0.0''"
| "float_repr PosInf = ''inf''"
| "float_repr NegInf = ''-inf''"
| "float_repr NaN = ''nan''"

section \<open>The coordinate parser\<close>

text \<open>
  Exceptions are values: a function that can raise returns \<open>exn + 'a\<close>, with \<open>Inl\<close> the
  exception raised. \<open>ValueError\<close> carries its message, \<open>KeyError\<close> the missing key.
\<close>

datatype exn = ValueError string | KeyError string | IndexError string

fun str_exn :: "exn \<Rightarrow> string" where
  \<comment> \<open>\<open>str(e)\<close>\<close>
  "str_exn (ValueError msg) = msg"
| "str_exn (KeyError k) = repr_str k"
| "str_exn (IndexError msg) = msg"

type_synonym coord = "pyfloat list"

definition unpack2 :: "string list \<Rightarrow> exn + string \<times> string" where
  \<comment> \<open>\<open>lat_str, lon_str = parts\<close>\<close>
  "unpack2 parts =
     (case parts of
        [a, b] \<Rightarrow> Inr (a, b)
      | _ \<Rightarrow>
          if length parts < 2
          then Inl (ValueError (''not enough values to unpack (expected 2, got ''
                 @ str_int (int (length parts)) @ '')''))
          else Inl (ValueError ''too many values to unpack (expected 2)''))"

definition float_of_str :: "string \<Rightarrow> exn + pyfloat" where
  \<comment> \<open>\<open>float(s)\<close> with its exception\<close>
  "float_of_str s =
     (case py_float s of
        None \<Rightarrow> Inl (ValueError (''could not convert string to float: '' @ repr_str s))
      | Some x \<Rightarrow> Inr x)"

definition parse_pair :: "string \<Rightarrow> exn + coord" where
  \<comment> \<open>The body of the \<open>try\<close> statement, for one line.\<close>
  "parse_pair line =
     (case unpack2 (split comma line) of
        Inl e \<Rightarrow> Inl e
      | Inr (lat_str, lon_str) \<Rightarrow>
          (case float_of_str (strip lat_str) of
             Inl e \<Rightarrow> Inl e
           | Inr lat \<Rightarrow>
               (case float_of_str (strip lon_str) of
                  Inl e \<Rightarrow> Inl e
                | Inr lon \<Rightarrow>
                    if \<not> (int_le_float (- 29) lat \<and> float_le_int lat (- 10)) then
                      Inl (ValueError (''Latitude '' @ float_repr lat
                             @ '' outside Queensland range (-29 to -10)''))
                    else if \<not> (int_le_float 138 lon \<and> float_le_int lon 154) then
                      Inl (ValueError (''Longitude '' @ float_repr lon
                             @ '' outside Queensland range (138 to 154)''))
                    else Inr [lat, lon])))"

definition parse_line :: "string \<Rightarrow> exn + coord" where
  \<comment> \<open>One turn of the loop on a stripped line that is not empty: the separator check,
      then the \<open>try\<close> statement, whose handler wraps every \<open>ValueError\<close>.\<close>
  "parse_line line =
     (if comma \<notin> set line then
        Inl (ValueError (''Invalid format: '' @ line @ ''. Use latitude,longitude''))
      else
        (case parse_pair line of
           Inl (ValueError e) \<Rightarrow>
             Inl (ValueError (''Error parsing line '' @ [quote] @ line @ [quote] @ '': '' @ e))
         | Inl other \<Rightarrow> Inl other
         | Inr c \<Rightarrow> Inr c))"

fun parse_lines :: "string list \<Rightarrow> coord list \<Rightarrow> exn + coord list" where
  \<comment> \<open>The \<open>for\<close> loop; the second argument is the list \<open>coordinates\<close> built so far.\<close>
  "parse_lines [] coordinates = Inr coordinates"
| "parse_lines (l # ls) coordinates =
     (let line = strip l
      in if line = [] then parse_lines ls coordinates
         else (case parse_line line of
                 Inl e \<Rightarrow> Inl e
               | Inr c \<Rightarrow> parse_lines ls (coordinates @ [c])))"

fun list_eq :: "coord \<Rightarrow> coord \<Rightarrow> bool" where
  \<comment> \<open>\<open>==\<close> on two lists of floats\<close>
  "list_eq [] [] = True"
| "list_eq (x # xs) (y # ys) = (float_eq x y \<and> list_eq xs ys)"
| "list_eq _ _ = False"

definition read_coordinates :: "string \<Rightarrow> exn + coord list" where
  \<comment> \<open>The loop over the lines of the stripped text: the coordinates read, before the
      count check and the closure.\<close>
  "read_coordinates text = parse_lines (split newline (strip text)) []"

definition parse_coordinates :: "string \<Rightarrow> exn + coord list" where
  \<comment> \<open>\<open>text\<close> is the content of the text area, \<open>self.coords_text.get(1.0, tk.END)\<close>.\<close>
  "parse_coordinates text =
     (if strip text = [] then Inl (ValueError ''No coordinates entered'')
      else
        (case read_coordinates text of
           Inl e \<Rightarrow> Inl e
         | Inr coordinates \<Rightarrow>
             if length coordinates < 3 then Inl (ValueError ''Need at least 3 coordinates'')
             else if \<not> list_eq (hd coordinates) (last coordinates)
               then Inr (coordinates @ [hd coordinates])
             else Inr coordinates))"

fun convert_latlon_to_lonlat :: "coord list \<Rightarrow> exn + coord list" where
  \<comment> \<open>\<open>[[coord[1], coord[0]] for coord in latlon_coords]\<close>; an index out of range raises.\<close>
  "convert_latlon_to_lonlat [] = Inr []"
| "convert_latlon_to_lonlat (coord # rest) =
     (if length coord < 2 then Inl (IndexError ''list index out of range'')
      else (case convert_latlon_to_lonlat rest of
              Inl e \<Rightarrow> Inl e
            | Inr r \<Rightarrow> Inr ([coord ! 1, coord ! 0] # r)))"

section \<open>The configuration summary\<close>

text \<open>
  The state of the form is the content of its variables. The summary is the text that
  \<open>update_summary\<close> puts in the summary area: either the filled template, modelled by
  the values of its placeholders (the fixed text around them is left out), or the error
  line of the outer handler.
\<close>

record form =
  region_var :: string
  data_type_var :: string
  search_mode_var :: string
  custom_terms_var :: string
  format_var :: string
  max_datasets_var :: string
  output_dir_var :: string
  precise_filtering_var :: bool
  preview_mode_var :: bool
  coords_text :: string

definition data_types :: "(string \<times> string option \<times> string list) list" where
  \<comment> \<open>\<open>self.data_types\<close>: for each name, the filter and the suggested terms.\<close>
  "data_types =
     [(''All Data Types (Recommended)'',
         None, [''geology'', ''mining'', ''exploration'', ''geochemistry'', ''geophysics'']),
      (''Geochemistry Data'',
         Some ''earth_science_data_category:geochemistry'',
         [''geochemistry'', ''chemical analysis'', ''assay'', ''elements'']),
      (''Geophysics Data'',
         Some ''earth_science_data_category:geophysics'',
         [''geophysics'', ''magnetic'', ''gravity'', ''seismic'']),
      (''Geological Data'',
         Some ''earth_science_data_category:geology'',
         [''geology'', ''geological'', ''structure'', ''stratigraphy'']),
      (''Mining Data'',
         Some ''earth_science_data_category:mining'',
         [''mining'', ''exploration'', ''resource'', ''reserve'']),
      (''Hydrogeology Data'',
         Some ''earth_science_data_category:hydrogeology'',
         [''hydrogeology'', ''groundwater'', ''aquifer'', ''water''])]"

fun split_ws :: "string \<Rightarrow> string list" where
  \<comment> \<open>\<open>s.split()\<close>: the maximal runs of characters that are not whitespace.\<close>
  "split_ws [] = []"
| "split_ws (c # cs) =
     (if isspace c then split_ws cs
      else if cs \<noteq> [] \<and> \<not> isspace (hd cs) then
        (case split_ws cs of
           [] \<Rightarrow> [[c]]
         | w # ws \<Rightarrow> (c # w) # ws)
      else [c] # split_ws cs)"

definition search_terms_of :: "form \<Rightarrow> exn + string" where
  \<comment> \<open>The block "Build search terms"; the lookup of an unknown data type raises.\<close>
  "search_terms_of f =
     (if search_mode_var f = ''suggested'' then
        (case map_of data_types (data_type_var f) of
           None \<Rightarrow> Inl (KeyError (data_type_var f))
         | Some (flt, ts) \<Rightarrow> Inr (join '' OR '' (take 3 ts)))
      else if search_mode_var f = ''custom'' then
        (let custom_terms = strip (custom_terms_var f)
         in Inr (if custom_terms \<noteq> [] then join '' OR '' (split_ws custom_terms)
                 else ''No terms''))
      else Inr ''*:* (everything)'')"

definition coords_info_of :: "form \<Rightarrow> string" where
  \<comment> \<open>The inner \<open>try\<close> statement, whose handler catches everything.\<close>
  "coords_info_of f =
     (case parse_coordinates (coords_text f) of
        Inr coords \<Rightarrow> ''Valid polygon with '' @ str_int (int (length coords) - 1) @ '' vertices''
      | Inl e \<Rightarrow> ''Invalid or missing coordinates'')"

record summary =
  search_area :: string
  coordinates :: string
  data_type :: string
  search_terms :: string
  file_formats :: string
  max_datasets :: string
  output_directory :: string
  precise_filtering :: string
  preview_mode :: string
  status :: string

datatype summary_text = Summary summary | ErrorText string

definition yes_no :: "bool \<Rightarrow> string" where
  "yes_no b = (if b then ''Yes'' else ''No'')"

definition summary_body :: "form \<Rightarrow> exn + summary" where
  \<comment> \<open>The body of the outer \<open>try\<close> statement.\<close>
  "summary_body f =
     (case search_terms_of f of
        Inl e \<Rightarrow> Inl e
      | Inr ts \<Rightarrow>
          Inr \<lparr>search_area = region_var f,
               coordinates = coords_info_of f,
               data_type = data_type_var f,
               search_terms = ts,
               file_formats = format_var f,
               max_datasets = max_datasets_var f,
               output_directory = output_dir_var f,
               precise_filtering = yes_no (precise_filtering_var f),
               preview_mode = yes_no (preview_mode_var f),
               status = (if preview_mode_var f then ''Ready for preview''
                         else ''Ready for download'')\<rparr>)"

definition update_summary :: "form \<Rightarrow> exn + summary_text" where
  \<comment> \<open>The result is the new content of the summary area; \<open>Inl\<close> would be an exception
      that leaves \<open>update_summary\<close>.\<close>
  "update_summary f =
     (case summary_body f of
        Inr s \<Rightarrow> Inr (Summary s)
      | Inl e \<Rightarrow> Inr (ErrorText (''Error updating summary: '' @ str_exn e)))"

section \<open>Vocabulary of the properties\<close>

definition coordinate_lines :: "string \<Rightarrow> string list" where
  \<comment> \<open>The lines of a text that are not blank, each without its surrounding whitespace.\<close>
  "coordinate_lines text = filter (\<lambda>l. l \<noteq> []) (map strip (split newline text))"

definition valid_line :: "string \<Rightarrow> bool" where
  \<comment> \<open>A line that the loop turns into a coordinate.\<close>
  "valid_line l =
     (strip l \<noteq> [] \<and> (case parse_line (strip l) of Inr c \<Rightarrow> True | Inl e \<Rightarrow> False))"

definition coord_of :: "string \<Rightarrow> coord" where
  \<comment> \<open>The coordinate of a valid line.\<close>
  "coord_of l = (case parse_line (strip l) of Inr c \<Rightarrow> c | Inl e \<Rightarrow> [])"

definition line_coordinate :: "string \<Rightarrow> (rat \<times> rat) option" where
  \<comment> \<open>The latitude and longitude that a line denotes: one separator, and on each side of
      it, blanks aside, a text that \<open>float\<close> reads as a finite value.\<close>
  "line_coordinate l =
     (case split comma (strip l) of
        [a, b] \<Rightarrow>
          (case (py_float (strip a), py_float (strip b)) of
             (Some (Finite lat), Some (Finite lon)) \<Rightarrow> Some (lat, lon)
           | _ \<Rightarrow> None)
      | _ \<Rightarrow> None)"

definition bounded_line :: "string \<Rightarrow> bool" where
  \<comment> \<open>A \<open>lat,lon\<close> line whose coordinate lies within the bounds of the region.\<close>
  "bounded_line l =
     (case line_coordinate l of
        Some (lat, lon) \<Rightarrow> - 29 \<le> lat \<and> lat \<le> - 10 \<and> 138 \<le> lon \<and> lon \<le> 154
      | None \<Rightarrow> False)"

fun in_bounds :: "coord \<Rightarrow> bool" where
  \<comment> \<open>A pair of finite values within the latitudes and longitudes of the region.\<close>
  "in_bounds [Finite lat, Finite lon] =
     (- 29 \<le> lat \<and> lat \<le> - 10 \<and> 138 \<le> lon \<and> lon \<le> 154)"
| "in_bounds _ = False"

fun swap_axes :: "coord \<Rightarrow> coord" where
  \<comment> \<open>The pair in the other order.\<close>
  "swap_axes [lat, lon] = [lon, lat]"
| "swap_axes c = c"

text \<open>Sample texts of the coordinate area.\<close>

definition example_coords :: string where
  \<comment> \<open>the text that \<open>load_example_coords\<close> puts in the area: a closed square\<close>
  "example_coords =
     ''-21.0,139.0'' @ [newline] @ ''-21.0,141.0'' @ [newline] @ ''-20.0,141.0'' @ [newline]
       @ ''-20.0,139.0'' @ [newline] @ ''-21.0,139.0''"

definition open_triangle :: string where
  \<comment> \<open>three vertices, not closed\<close>
  "open_triangle = ''-21.0,139.0'' @ [newline] @ ''-21.0,141.0'' @ [newline] @ ''-20.0,141.0''"

definition triangle_in_text_area :: string where
  \<comment> \<open>the triangle as the text area gives it: blanks around a line, a blank line, and the
      newline that the area adds at the end\<close>
  "triangle_in_text_area =
     ''-21.0,139.0'' @ [newline] @ [newline] @ ''  -21.0, 141.0 '' @ [newline] @ ''-20.0,141.0''
       @ [newline]"

definition reworded_closure :: string where
  \<comment> \<open>the triangle closed by a line that writes its first vertex in another way\<close>
  "reworded_closure =
     ''-21.0,139.0'' @ [newline] @ ''-21.0,141.0'' @ [newline] @ ''-20.0,141.0'' @ [newline]
       @ ''-21,139''"

definition latitude_too_low :: string where
  "latitude_too_low = ''-21.0,139.0'' @ [newline] @ ''-30.0,141.0'' @ [newline] @ ''-20.0,141.0''"

definition malformed_lines :: string where
  \<comment> \<open>a line without separator, a line with two\<close>
  "malformed_lines =
     ''-21.0,139.0'' @ [newline] @ ''-21.0 139.0'' @ [newline] @ ''-20.0,141.0,5''"

text \<open>A sample state of the form.\<close>

definition sample_form :: form where
  \<comment> \<open>A state of the form: a custom polygon whose only line has no separator.\<close>
  "sample_form =
     \<lparr>region_var = ''Custom Polygon'',
      data_type_var = ''Geochemistry Data'',
      search_mode_var = ''suggested'',
      custom_terms_var = ''copper gold mining'',
      format_var = ''All Formats (Recommended)'',
      max_datasets_var = ''20'',
      output_dir_var = ''gsq_polygon_data'',
      precise_filtering_var = True,
      preview_mode_var = False,
      coords_text = ''-21.0 139.0''\<rparr>"

section \<open>Splitting and stripping\<close>

lemma split_nonempty [simp]: "split sep s \<noteq> []"
  by (induction s) (auto split: list.splits)

lemma split_Cons_other:
  "c \<noteq> sep \<Longrightarrow> split sep (c # cs) = (c # hd (split sep cs)) # tl (split sep cs)"
  by (cases "split sep cs") (use split_nonempty in auto)

lemma split_append:
  "split sep (a @ b)
     = butlast (split sep a) @ [last (split sep a) @ hd (split sep b)] @ tl (split sep b)"
proof (induction a)
  case Nil
  then show ?case by simp
next
  case (Cons c a)
  show ?case
  proof (cases "c = sep")
    case True
    then show ?thesis using Cons by simp
  next
    case False
    show ?thesis
    proof (cases "split sep a")
      case Nil
      then show ?thesis using split_nonempty by blast
    next
      case (Cons p ps)
      then show ?thesis
        using False Cons.IH by (cases ps) (simp_all add: split_Cons_other)
    qed
  qed
qed

lemma split_append_sep: "split sep (a @ sep # r) = split sep a @ split sep r"
  by (simp add: split_append)

lemma set_concat_split: "set (concat (split sep s)) \<subseteq> set s"
  by (induction s) (auto split: list.splits, blast+)

lemma set_split: "l \<in> set (split sep s) \<Longrightarrow> set l \<subseteq> set s"
  using set_concat_split [of sep s] by auto

lemma dropWhile_all_iff: "(\<forall>x \<in> set (dropWhile P xs). P x) \<longleftrightarrow> (\<forall>x \<in> set xs. P x)"
  by (induction xs) auto

lemma strip_Nil_iff: "strip s = [] \<longleftrightarrow> (\<forall>c \<in> set s. isspace c)"
  by (simp add: strip_def dropWhile_eq_Nil_conv dropWhile_all_iff)

lemma strip_space_Cons: "isspace c \<Longrightarrow> strip (c # s) = strip s"
  by (simp add: strip_def)

lemma strip_space_append:
  assumes w: "\<forall>c \<in> set w. isspace c"
  shows "strip (s @ w) = strip s"
proof (cases "\<forall>c \<in> set s. isspace c")
  case True
  then have "strip (s @ w) = []" "strip s = []"
    using w by (auto simp: strip_Nil_iff)
  then show ?thesis by simp
next
  case False
  then have "dropWhile isspace (s @ w) = dropWhile isspace s @ w"
    by (auto simp: dropWhile_append)
  moreover have "dropWhile isspace (rev w @ xs) = dropWhile isspace xs" for xs
    using w by (simp add: dropWhile_append)
  ultimately show ?thesis
    by (simp add: strip_def)
qed

lemma dropWhile_fixed: "xs = [] \<or> \<not> P (hd xs) \<Longrightarrow> dropWhile P xs = xs"
  by (cases xs) auto

lemma strip_hd: "strip s \<noteq> [] \<Longrightarrow> \<not> isspace (hd (strip s))"
proof -
  assume ne: "strip s \<noteq> []"
  let ?d = "dropWhile isspace s"
  have "dropWhile isspace (rev ?d) = drop (length (takeWhile isspace (rev ?d))) (rev ?d)"
    by (rule dropWhile_eq_drop)
  then have eq: "strip s = take (length ?d - length (takeWhile isspace (rev ?d))) ?d"
    by (simp add: strip_def drop_rev)
  with ne have "?d \<noteq> []" "hd (strip s) = hd ?d"
    by (auto simp: hd_take)
  then show ?thesis
    using hd_dropWhile [of isspace s] by simp
qed

lemma strip_last: "strip s \<noteq> [] \<Longrightarrow> \<not> isspace (last (strip s))"
proof -
  assume ne: "strip s \<noteq> []"
  let ?z = "dropWhile isspace (rev (dropWhile isspace s))"
  have "?z \<noteq> []" using ne by (simp add: strip_def)
  then have "\<not> isspace (hd ?z)" by (rule hd_dropWhile)
  moreover have "last (strip s) = hd ?z"
    using \<open>?z \<noteq> []\<close> by (simp add: strip_def last_rev)
  ultimately show ?thesis by simp
qed

lemma strip_strip [simp]: "strip (strip s) = strip s"
proof (cases "strip s = []")
  case True
  moreover have "strip [] = []" by (simp add: strip_def)
  ultimately show ?thesis by simp
next
  case False
  have a: "dropWhile isspace (strip s) = strip s"
    using strip_hd [OF False] by (intro dropWhile_fixed) simp
  have "hd (rev (strip s)) = last (strip s)"
    using False by (simp add: hd_rev)
  then have b: "dropWhile isspace (rev (strip s)) = rev (strip s)"
    using strip_last [OF False] by (intro dropWhile_fixed) simp
  show ?thesis
    unfolding strip_def [of "strip s"] a b by simp
qed

section \<open>The lines of a text\<close>

lemma isspace_newline [simp]: "isspace newline"
  by (simp add: isspace_def newline_def)

lemma strip_Nil [simp]: "strip [] = []"
  by (simp add: strip_def)

lemma coordinate_lines_Nil [simp]: "coordinate_lines [] = []"
  by (simp add: coordinate_lines_def)

lemma coordinate_lines_space_Cons:
  assumes "isspace c"
  shows "coordinate_lines (c # t) = coordinate_lines t"
proof (cases "c = newline")
  case True
  then show ?thesis by (simp add: coordinate_lines_def)
next
  case False
  obtain p ps where sp: "split newline t = p # ps"
    using split_nonempty [of newline t] by (cases "split newline t") auto
  then have "split newline (c # t) = (c # p) # ps"
    using False by simp
  then show ?thesis
    using sp assms by (simp add: coordinate_lines_def strip_space_Cons)
qed

lemma coordinate_lines_space_prefix:
  "\<forall>c \<in> set w. isspace c \<Longrightarrow> coordinate_lines (w @ t) = coordinate_lines t"
  by (induction w) (simp_all add: coordinate_lines_space_Cons)

lemma coordinate_lines_space:
  "\<forall>c \<in> set w. isspace c \<Longrightarrow> coordinate_lines w = []"
  using coordinate_lines_space_prefix [of w "[]"] by simp

lemma coordinate_lines_append_newline:
  "coordinate_lines (a @ newline # b) = coordinate_lines a @ coordinate_lines b"
  by (simp add: coordinate_lines_def split_append_sep)

lemma coordinate_lines_space_suffix:
  assumes w: "\<forall>c \<in> set w. isspace c"
  shows "coordinate_lines (t @ w) = coordinate_lines t"
proof -
  let ?a = "split newline t" and ?b = "split newline w"
  have blank: "strip l = []" if "l \<in> set ?b" for l
    using that set_split [of l newline w] w by (auto simp: strip_Nil_iff)
  have hd_b: "hd ?b \<in> set ?b" and tl_b: "set (tl ?b) \<subseteq> set ?b"
    by (simp_all add: list.set_sel(2) subsetI)
  have "\<forall>c \<in> set (hd ?b). isspace c"
    using hd_b set_split [of "hd ?b" newline w] w by auto
  then have last_eq: "strip (last ?a @ hd ?b) = strip (last ?a)"
    by (rule strip_space_append)
  have tl_blank: "filter (\<lambda>l. l \<noteq> []) (map strip (tl ?b)) = []"
    using blank tl_b by (auto simp: filter_empty_conv)
  have whole: "butlast ?a @ [last ?a] = ?a"
    by simp
  have one: "coordinate_lines (t @ w)
      = filter (\<lambda>l. l \<noteq> []) (map strip (butlast ?a)) @ filter (\<lambda>l. l \<noteq> []) [strip (last ?a)]"
    by (simp add: coordinate_lines_def split_append last_eq tl_blank)
  have "coordinate_lines t = filter (\<lambda>l. l \<noteq> []) (map strip (butlast ?a @ [last ?a]))"
    by (simp only: whole coordinate_lines_def)
  also have "\<dots>
      = filter (\<lambda>l. l \<noteq> []) (map strip (butlast ?a)) @ filter (\<lambda>l. l \<noteq> []) [strip (last ?a)]"
    by (simp only: map_append filter_append list.map)
  finally show ?thesis
    using one by simp
qed

lemma strip_decomposition:
  "\<exists>w1 w2. s = w1 @ strip s @ w2 \<and> (\<forall>c \<in> set w1. isspace c) \<and> (\<forall>c \<in> set w2. isspace c)"
proof -
  let ?d = "dropWhile isspace s"
  have "?d = rev (dropWhile isspace (rev ?d)) @ rev (takeWhile isspace (rev ?d))"
    by (metis rev_append rev_rev_ident takeWhile_dropWhile_id)
  then have "?d = strip s @ rev (takeWhile isspace (rev ?d))"
    by (simp only: strip_def)
  then have "s = takeWhile isspace s @ strip s @ rev (takeWhile isspace (rev ?d))"
    by (metis takeWhile_dropWhile_id)
  moreover have "\<forall>c \<in> set (takeWhile isspace s). isspace c"
    by (auto dest: set_takeWhileD)
  moreover have "\<forall>c \<in> set (rev (takeWhile isspace (rev ?d))). isspace c"
    by (auto dest: set_takeWhileD)
  ultimately show ?thesis by blast
qed

lemma coordinate_lines_strip [simp]: "coordinate_lines (strip t) = coordinate_lines t"
proof -
  obtain w1 w2 where "t = w1 @ strip t @ w2"
    and "\<forall>c \<in> set w1. isspace c" and "\<forall>c \<in> set w2. isspace c"
    using strip_decomposition by blast
  then show ?thesis
    by (metis coordinate_lines_space_prefix coordinate_lines_space_suffix)
qed

lemma coordinate_lines_Nil_iff: "coordinate_lines t = [] \<longleftrightarrow> strip t = []"
proof
  assume "strip t = []"
  then show "coordinate_lines t = []"
    by (simp add: strip_Nil_iff coordinate_lines_space)
next
  show "coordinate_lines t = [] \<Longrightarrow> strip t = []"
  proof (induction t)
    case Nil
    then show ?case by simp
  next
    case (Cons c t)
    show ?case
    proof (cases "c = newline")
      case True
      then show ?thesis
        using Cons by (simp add: coordinate_lines_space_Cons strip_space_Cons)
    next
      case False
      obtain p ps where sp: "split newline t = p # ps"
        using split_nonempty [of newline t] by (cases "split newline t") auto
      with False Cons.prems have "strip (c # p) = []" and rest: "coordinate_lines t = [] \<or> strip p \<noteq> []"
        by (auto simp: coordinate_lines_def split: if_splits)
      then have "isspace c" "strip p = []"
        by (auto simp: strip_Nil_iff)
      then show ?thesis
        using Cons rest by (simp add: coordinate_lines_space_Cons strip_space_Cons)
    qed
  qed
qed

lemma coordinate_lines_stripped:
  "l \<in> set (coordinate_lines t) \<Longrightarrow> strip l = l \<and> l \<noteq> []"
  by (auto simp: coordinate_lines_def)

lemma parse_lines_filter:
  "parse_lines ls acc = parse_lines (filter (\<lambda>l. l \<noteq> []) (map strip ls)) acc"
  by (induction ls arbitrary: acc) (simp_all add: Let_def split: sum.splits)

lemma read_coordinates_lines: "read_coordinates text = parse_lines (coordinate_lines text) []"
proof -
  have "read_coordinates text = parse_lines (coordinate_lines (strip text)) []"
    unfolding read_coordinates_def coordinate_lines_def by (rule parse_lines_filter)
  then show ?thesis by simp
qed

section \<open>The loop over the lines\<close>

lemma float_in_range:
  "int_le_float lo x \<Longrightarrow> float_le_int x hi \<Longrightarrow> hi < 0 \<or> 0 < lo \<Longrightarrow>
     \<exists>q. x = Finite q \<and> of_int lo \<le> q \<and> q \<le> of_int hi"
  by (cases x) auto

lemma parse_pair_in_bounds: "parse_pair line = Inr c \<Longrightarrow> in_bounds c"
proof -
  assume ok: "parse_pair line = Inr c"
  then obtain lat lon where c: "c = [lat, lon]"
    and lat: "int_le_float (- 29) lat" "float_le_int lat (- 10)"
    and lon: "int_le_float 138 lon" "float_le_int lon 154"
    by (auto simp: parse_pair_def split: sum.splits prod.splits if_splits)
  obtain p where p: "lat = Finite p" "- 29 \<le> p" "p \<le> - 10"
    using float_in_range [OF lat] by auto
  obtain q where q: "lon = Finite q" "138 \<le> q" "q \<le> 154"
    using float_in_range [OF lon] by auto
  show ?thesis
    using c p q by simp
qed

lemma parse_line_in_bounds: "parse_line line = Inr c \<Longrightarrow> in_bounds c"
  by (auto simp: parse_line_def dest: parse_pair_in_bounds split: if_splits sum.splits exn.splits)

lemma in_bounds_pair:
  "in_bounds c \<Longrightarrow> \<exists>lat lon. c = [Finite lat, Finite lon]"
  by (cases c rule: in_bounds.cases) auto

lemma list_eq_in_bounds: "in_bounds c \<Longrightarrow> in_bounds d \<Longrightarrow> list_eq c d \<longleftrightarrow> c = d"
  by (auto dest!: in_bounds_pair)

lemma valid_line_coord: "valid_line l \<Longrightarrow> parse_line (strip l) = Inr (coord_of l)"
  by (auto simp: valid_line_def coord_of_def split: sum.splits)

lemma valid_line_in_bounds: "valid_line l \<Longrightarrow> in_bounds (coord_of l)"
  by (auto dest: valid_line_coord parse_line_in_bounds)

lemma parse_lines_valid:
  "\<forall>l \<in> set ls. valid_line l \<Longrightarrow> parse_lines ls acc = Inr (acc @ map coord_of ls)"
proof (induction ls arbitrary: acc)
  case Nil
  then show ?case by simp
next
  case (Cons l ls)
  then have "valid_line l" by simp
  then have "strip l \<noteq> []" "parse_line (strip l) = Inr (coord_of l)"
    by (simp_all add: valid_line_def valid_line_coord)
  then show ?case
    using Cons by (simp add: Let_def)
qed

lemma parse_lines_error:
  assumes "\<forall>p \<in> set pre. valid_line p" and "strip l \<noteq> []" and "parse_line (strip l) = Inl e"
  shows "parse_lines (pre @ l # post) acc = Inl e"
  using assms(1)
proof (induction pre arbitrary: acc)
  case Nil
  then show ?case using assms(2,3) by (simp add: Let_def)
next
  case (Cons p pre)
  then have "valid_line p" by simp
  then have "strip p \<noteq> []" "parse_line (strip p) = Inr (coord_of p)"
    by (simp_all add: valid_line_def valid_line_coord)
  then show ?case
    using Cons by (simp add: Let_def)
qed

lemma parse_lines_success:
  "parse_lines ls acc = Inr cs \<Longrightarrow>
     cs = acc @ map coord_of (filter (\<lambda>l. strip l \<noteq> []) ls)
     \<and> (\<forall>l \<in> set ls. strip l \<noteq> [] \<longrightarrow> valid_line l)"
proof (induction ls arbitrary: acc)
  case Nil
  then show ?case by simp
next
  case (Cons l ls)
  show ?case
  proof (cases "strip l = []")
    case True
    then show ?thesis using Cons by (simp add: Let_def)
  next
    case False
    then obtain c where c: "parse_line (strip l) = Inr c"
      and rest: "parse_lines ls (acc @ [c]) = Inr cs"
      using Cons.prems by (auto simp: Let_def split: sum.splits)
    have "valid_line l" "coord_of l = c"
      using False c by (simp_all add: valid_line_def coord_of_def)
    then show ?thesis
      using Cons.IH [OF rest] False by simp
  qed
qed

lemma parse_coordinates_lines:
  "parse_coordinates text =
     (if coordinate_lines text = [] then Inl (ValueError ''No coordinates entered'')
      else
        (case parse_lines (coordinate_lines text) [] of
           Inl e \<Rightarrow> Inl e
         | Inr cs \<Rightarrow>
             if length cs < 3 then Inl (ValueError ''Need at least 3 coordinates'')
             else if \<not> list_eq (hd cs) (last cs) then Inr (cs @ [hd cs])
             else Inr cs))"
  by (simp add: parse_coordinates_def read_coordinates_lines coordinate_lines_Nil_iff)

lemma coordinate_lines_valid:
  "l \<in> set (coordinate_lines text) \<Longrightarrow> strip l \<noteq> []"
  using coordinate_lines_stripped by fastforce

lemma read_coordinates_success:
  assumes "read_coordinates text = Inr cs"
  shows "cs = map coord_of (coordinate_lines text)"
    and "\<forall>l \<in> set (coordinate_lines text). valid_line l"
    and "\<forall>c \<in> set cs. in_bounds c"
proof -
  have ok: "parse_lines (coordinate_lines text) [] = Inr cs"
    using assms by (simp add: read_coordinates_lines)
  have all: "filter (\<lambda>l. strip l \<noteq> []) (coordinate_lines text) = coordinate_lines text"
    by (simp add: coordinate_lines_valid)
  show cs: "cs = map coord_of (coordinate_lines text)"
    using parse_lines_success [OF ok] all by simp
  show valid: "\<forall>l \<in> set (coordinate_lines text). valid_line l"
    using parse_lines_success [OF ok] by (simp add: coordinate_lines_valid)
  show "\<forall>c \<in> set cs. in_bounds c"
    using cs valid by (auto dest: valid_line_in_bounds)
qed

lemma split_no_sep: "sep \<notin> set s \<Longrightarrow> split sep s = [s]"
  by (induction s) auto

lemma length_split: "length (split sep s) = Suc (count_list s sep)"
  by (induction s) (auto split: list.splits)

lemma valid_line_strip: "valid_line (strip l) = valid_line l"
  by (simp add: valid_line_def)

lemma coord_of_strip: "coord_of (strip l) = coord_of l"
  by (simp add: coord_of_def)

lemma parse_coordinates_in_bounds:
  "parse_coordinates text = Inr cs \<Longrightarrow> \<forall>c \<in> set cs. in_bounds c"
proof -
  assume "parse_coordinates text = Inr cs"
  then obtain rs where rs: "read_coordinates text = Inr rs" "3 \<le> length rs"
    and cs: "cs = rs \<or> cs = rs @ [hd rs]"
    by (auto simp: parse_coordinates_def split: if_splits sum.splits)
  have "\<forall>c \<in> set rs. in_bounds c"
    using read_coordinates_success(3) [OF rs(1)] .
  moreover have "hd rs \<in> set rs"
    using rs(2) by (cases rs) auto
  ultimately show ?thesis
    using cs by auto
qed

lemma parse_coordinates_failure:
  assumes "l \<in> set (coordinate_lines text)" and "\<not> valid_line l"
  shows "\<exists>e. parse_coordinates text = Inl e"
proof (cases "parse_coordinates text")
  case (Inl e)
  then show ?thesis by simp
next
  case (Inr cs)
  then obtain rs where "read_coordinates text = Inr rs"
    by (auto simp: parse_coordinates_def split: if_splits sum.splits)
  then have "valid_line l"
    using read_coordinates_success(2) assms(1) by blast
  then show ?thesis
    using assms(2) by simp
qed

lemma parse_coordinates_first_error:
  assumes "coordinate_lines text = pre @ l # post"
    and "\<forall>p \<in> set pre. valid_line p"
    and "parse_line l = Inl e"
  shows "parse_coordinates text = Inl e"
proof -
  have "l \<in> set (coordinate_lines text)"
    using assms(1) by simp
  then have l: "strip l = l" "l \<noteq> []"
    using coordinate_lines_stripped by blast+
  then have "parse_lines (pre @ l # post) [] = Inl e"
    using assms(2,3) by (intro parse_lines_error) simp_all
  then show ?thesis
    using assms(1) by (simp add: parse_coordinates_lines)
qed

lemma out_of_range_latitude:
  assumes "split comma l = [lat_str, lon_str]"
    and "py_float (strip lat_str) = Some lat"
    and "\<not> (int_le_float (- 29) lat \<and> float_le_int lat (- 10))"
  shows "\<exists>e. parse_line l = Inl e"
    and "py_float (strip lon_str) = Some lon \<Longrightarrow>
           parse_line l = Inl (ValueError (''Error parsing line '' @ [quote] @ l @ [quote] @ '': ''
             @ ''Latitude '' @ float_repr lat @ '' outside Queensland range (-29 to -10)''))"
proof -
  have comma: "comma \<in> set l"
    using assms(1) split_no_sep [of comma l] by auto
  show "\<exists>e. parse_line l = Inl e"
    using assms comma
    by (cases "py_float (strip lon_str)")
       (auto simp: parse_line_def parse_pair_def unpack2_def float_of_str_def)
  show "parse_line l = Inl (ValueError (''Error parsing line '' @ [quote] @ l @ [quote] @ '': ''
             @ ''Latitude '' @ float_repr lat @ '' outside Queensland range (-29 to -10)''))"
    if "py_float (strip lon_str) = Some lon"
    using assms comma that
    by (auto simp: parse_line_def parse_pair_def unpack2_def float_of_str_def)
qed

lemma valid_line_one_comma:
  assumes "valid_line l" and "strip l = l"
  shows "count_list l comma = 1"
proof -
  obtain c where "parse_line l = Inr c"
    using assms by (auto simp: valid_line_def split: sum.splits)
  then have "length (split comma l) = 2"
    by (auto simp: parse_line_def parse_pair_def unpack2_def
             split: if_splits sum.splits list.splits exn.splits)
  then show ?thesis
    by (simp add: length_split)
qed

text \<open>The lines that the loop accepts are the bounded lines.\<close>

lemma bounded_line_accepted:
  assumes "bounded_line l"
  shows "\<exists>lat lon. line_coordinate l = Some (lat, lon)
           \<and> - 29 \<le> lat \<and> lat \<le> - 10 \<and> 138 \<le> lon \<and> lon \<le> 154
           \<and> strip l \<noteq> []
           \<and> parse_line (strip l) = Inr [Finite lat, Finite lon]"
proof -
  obtain lat lon where lc: "line_coordinate l = Some (lat, lon)"
    and bounds: "- 29 \<le> lat" "lat \<le> - 10" "138 \<le> lon" "lon \<le> 154"
    using assms by (auto simp: bounded_line_def split: option.splits)
  obtain a b where parts: "split comma (strip l) = [a, b]"
    and floats: "py_float (strip a) = Some (Finite lat)" "py_float (strip b) = Some (Finite lon)"
    using lc
    by (auto simp: line_coordinate_def split: list.splits option.splits pyfloat.splits)
  have comma: "comma \<in> set (strip l)"
    using parts split_no_sep [of comma "strip l"] by auto
  then have ne: "strip l \<noteq> []"
    by auto
  have "parse_pair (strip l) = Inr [Finite lat, Finite lon]"
    using parts floats bounds by (simp add: parse_pair_def unpack2_def float_of_str_def)
  then have "parse_line (strip l) = Inr [Finite lat, Finite lon]"
    using comma by (simp add: parse_line_def)
  then show ?thesis
    using lc bounds ne by simp
qed

lemma bounded_line_valid: "bounded_line l \<Longrightarrow> valid_line l"
  using bounded_line_accepted [of l] by (auto simp: valid_line_def)

lemma bounded_line_coord:
  "bounded_line l \<Longrightarrow> bounded_line m \<Longrightarrow>
     coord_of l = coord_of m \<longleftrightarrow> line_coordinate l = line_coordinate m"
  using bounded_line_accepted [of l] bounded_line_accepted [of m]
  by (auto simp: coord_of_def)

lemma valid_line_bounded: "valid_line l \<Longrightarrow> bounded_line l"
proof -
  assume v: "valid_line l"
  then obtain c where c: "parse_line (strip l) = Inr c"
    by (auto simp: valid_line_def split: sum.splits)
  then have "in_bounds c"
    by (rule parse_line_in_bounds)
  then obtain lat lon where pair: "c = [Finite lat, Finite lon]"
    and bounds: "- 29 \<le> lat \<and> lat \<le> - 10 \<and> 138 \<le> lon \<and> lon \<le> 154"
    by (cases c rule: in_bounds.cases) auto
  have "parse_pair (strip l) = Inr [Finite lat, Finite lon]"
    using c pair by (auto simp: parse_line_def split: if_splits sum.splits exn.splits)
  then have "line_coordinate l = Some (lat, lon)"
    by (auto simp: parse_pair_def unpack2_def float_of_str_def line_coordinate_def
             split: sum.splits list.splits option.splits if_splits)
  then show ?thesis
    using bounds by (simp add: bounded_line_def)
qed

section \<open>Properties of the coordinate parser\<close>

lemma parse_coordinates_same_lines:
  "coordinate_lines s = coordinate_lines t \<Longrightarrow> parse_coordinates s = parse_coordinates t"
  by (simp add: parse_coordinates_lines)

lemma example_closed:
  "parse_coordinates example_coords
   = Inr [[Finite (- 21), Finite 139], [Finite (- 21), Finite 141], [Finite (- 20), Finite 141],
          [Finite (- 20), Finite 139], [Finite (- 21), Finite 139]]"
  by code_simp




text \<open>
  C4, as the parser has it. A text with one or two coordinate lines, all of them valid
  (blank lines aside), fails with the error "Need at least 3 coordinates".
\<close>

theorem too_few_coordinates:
  assumes "coordinate_lines text \<noteq> []"
    and "\<forall>l \<in> set (coordinate_lines text). valid_line l"
    and "length (coordinate_lines text) < 3"
  shows "parse_coordinates text = Inl (ValueError ''Need at least 3 coordinates'')"
  using assms by (simp add: parse_coordinates_lines parse_lines_valid)

theorem too_few_coordinates_witness:
  "length (coordinate_lines (''-21.0,139.0'' @ [newline] @ ''-21.0,141.0'')) = 2
   \<and> list_all valid_line (coordinate_lines (''-21.0,139.0'' @ [newline] @ ''-21.0,141.0''))
   \<and> parse_coordinates (''-21.0,139.0'' @ [newline] @ ''-21.0,141.0'')
       = Inl (ValueError ''Need at least 3 coordinates'')"
proof -
  have lines: "coordinate_lines (''-21.0,139.0'' @ [newline] @ ''-21.0,141.0'')
                 = [''-21.0,139.0'', ''-21.0,141.0'']"
    by code_simp
  have valid: "valid_line ''-21.0,139.0''" "valid_line ''-21.0,141.0''"
    by code_simp+
  show ?thesis
    using too_few_coordinates [of "''-21.0,139.0'' @ [newline] @ ''-21.0,141.0''"] lines valid
    by simp
qed

text \<open>
  C4 as stated covers every text with fewer than three valid lines. The empty text has
  none, and fails with the error "No coordinates entered" instead.
\<close>

theorem no_lines_is_another_error:
  "length (filter valid_line (split newline [])) < 3
   \<and> parse_coordinates [] = Inl (ValueError ''No coordinates entered'')
   \<and> ValueError ''No coordinates entered'' \<noteq> ValueError ''Need at least 3 coordinates''"
proof -
  have "parse_coordinates [] = Inl (ValueError ''No coordinates entered'')"
    by (simp add: parse_coordinates_def)
  moreover have "length (filter valid_line (split newline [])) < 3"
    by (simp add: valid_line_def)
  ultimately show ?thesis by simp
qed

text \<open>
  C5. When the first coordinate line of an accepted text equals its last one, the result
  is the list of coordinates read from the lines, with nothing appended: one coordinate
  for each line, the last equal to the first.
\<close>

theorem closed_polygon_not_extended:
  assumes "parse_coordinates text = Inr out"
    and "hd (coordinate_lines text) = last (coordinate_lines text)"
  shows "read_coordinates text = Inr out \<and> length out = length (coordinate_lines text)
           \<and> last out = hd out"
proof -
  obtain cs where cs: "read_coordinates text = Inr cs" "3 \<le> length cs"
    and out: "out = (if \<not> list_eq (hd cs) (last cs) then cs @ [hd cs] else cs)"
    using assms(1) by (auto simp: parse_coordinates_def split: if_splits sum.splits)
  let ?ls = "coordinate_lines text"
  have map: "cs = map coord_of ?ls" and bounds: "\<forall>c \<in> set cs. in_bounds c"
    using read_coordinates_success [OF cs(1)] by simp_all
  have ne: "?ls \<noteq> []" "cs \<noteq> []"
    using cs(2) map by auto
  have "hd cs = coord_of (hd ?ls)" "last cs = coord_of (last ?ls)"
    using ne map by (simp_all add: hd_map last_map)
  then have same: "hd cs = last cs"
    using assms(2) by simp
  have "in_bounds (hd cs)"
    using bounds ne by simp
  then have "list_eq (hd cs) (last cs)"
    using same by (simp add: list_eq_in_bounds)
  then have "out = cs"
    using out by simp
  then show ?thesis
    using cs(1) map same by simp
qed

theorem closed_polygon_not_extended_witness:
  "hd (coordinate_lines example_coords) = last (coordinate_lines example_coords)
   \<and> length (coordinate_lines example_coords) = 5
   \<and> read_coordinates example_coords
     = Inr [[Finite (- 21), Finite 139], [Finite (- 21), Finite 141], [Finite (- 20), Finite 141],
            [Finite (- 20), Finite 139], [Finite (- 21), Finite 139]]"
proof -
  have lines: "coordinate_lines example_coords
     = [''-21.0,139.0'', ''-21.0,141.0'', ''-20.0,141.0'', ''-20.0,139.0'', ''-21.0,139.0'']"
    by code_simp
  show ?thesis
    using closed_polygon_not_extended [OF example_closed] lines by simp
qed

text \<open>
  C10. A text that is empty or holds only whitespace fails with the error
  "No coordinates entered", which is not the error of the vertex count; and a blank line
  between two lines of a text does not change the result of the parser.
\<close>

theorem blank_text_and_blank_lines:
  "((\<forall>c \<in> set text. isspace c) \<longrightarrow>
      parse_coordinates text = Inl (ValueError ''No coordinates entered''))
   \<and> ValueError ''No coordinates entered'' \<noteq> ValueError ''Need at least 3 coordinates''
   \<and> ((\<forall>c \<in> set w. isspace c) \<longrightarrow>
      parse_coordinates (a @ newline # w @ newline # b) = parse_coordinates (a @ newline # b))"
proof (intro conjI impI)
  assume "\<forall>c \<in> set text. isspace c"
  then show "parse_coordinates text = Inl (ValueError ''No coordinates entered'')"
    by (simp add: parse_coordinates_def strip_Nil_iff)
next
  show "ValueError ''No coordinates entered'' \<noteq> ValueError ''Need at least 3 coordinates''"
    by simp
next
  assume "\<forall>c \<in> set w. isspace c"
  then have "coordinate_lines (a @ newline # w @ newline # b) = coordinate_lines (a @ newline # b)"
    by (simp add: coordinate_lines_append_newline coordinate_lines_space)
  then show "parse_coordinates (a @ newline # w @ newline # b) = parse_coordinates (a @ newline # b)"
    by (rule parse_coordinates_same_lines)
qed

theorem blank_text_and_blank_lines_witness:
  "parse_coordinates ('' '' @ [newline] @ ''  '') = Inl (ValueError ''No coordinates entered'')
   \<and> parse_coordinates ((''-21.0,139.0'' @ [newline] @ ''-21.0,141.0'') @ newline # '' ''
        @ newline # ''-20.0,141.0'')
     = parse_coordinates ((''-21.0,139.0'' @ [newline] @ ''-21.0,141.0'') @ newline # ''-20.0,141.0'')
   \<and> parse_coordinates ((''-21.0,139.0'' @ [newline] @ ''-21.0,141.0'') @ newline # ''-20.0,141.0'')
     = Inr [[Finite (- 21), Finite 139], [Finite (- 21), Finite 141], [Finite (- 20), Finite 141],
            [Finite (- 21), Finite 139]]"
proof -
  have sp: "\<forall>c \<in> set ('' '' @ [newline] @ ''  ''). isspace c" "\<forall>c \<in> set '' ''. isspace c"
    by (simp_all add: isspace_def newline_def)
  have ok: "parse_coordinates
       ((''-21.0,139.0'' @ [newline] @ ''-21.0,141.0'') @ newline # ''-20.0,141.0'')
     = Inr [[Finite (- 21), Finite 139], [Finite (- 21), Finite 141], [Finite (- 20), Finite 141],
            [Finite (- 21), Finite 139]]"
    by code_simp
  show ?thesis
    using blank_text_and_blank_lines
            [of "'' '' @ [newline] @ ''  ''" "'' ''"
               "''-21.0,139.0'' @ [newline] @ ''-21.0,141.0''" "''-20.0,141.0''"]
          sp ok
    by simp
qed

lemma valid_sample_lines:
  "valid_line ''-21.0,139.0''" "valid_line ''-21.0,141.0''" "valid_line ''-20.0,141.0''"
  "valid_line ''-21,139''"
  by code_simp+

lemma sample_lines_bounded:
  "bounded_line ''-21.0,139.0''" "bounded_line ''-21.0, 141.0''" "bounded_line ''-20.0,141.0''"
  "bounded_line ''-21.0,141.0''" "bounded_line ''-21,139''"
  by code_simp+

lemma sample_line_coordinates:
  "line_coordinate ''-21.0,139.0'' = Some (- 21, 139)"
  "line_coordinate ''-20.0,141.0'' = Some (- 20, 141)"
  "line_coordinate ''-21,139'' = Some (- 21, 139)"
  by code_simp+

text \<open>
  C1, as the parser has it. For a text whose lines, blank lines aside, are at least three
  \<open>lat,lon\<close> lines with coordinates within the bounds, the parser returns a list with
  one element for each of these lines, and one more when the coordinates of the first
  and last of them differ; when they are equal, as they are when the two lines are the
  same, it returns one element for each line. The lines are those of the text area:
  blanks around a line, blank lines and the newline at the end do not count.
\<close>

theorem parse_coordinates_length:
  assumes "\<forall>l \<in> set (coordinate_lines text). bounded_line l"
    and "3 \<le> length (coordinate_lines text)"
  shows "\<exists>cs. parse_coordinates text = Inr cs
           \<and> length cs = length (coordinate_lines text)
                + (if line_coordinate (hd (coordinate_lines text))
                        = line_coordinate (last (coordinate_lines text))
                   then 0 else 1)"
proof -
  let ?ls = "coordinate_lines text"
  let ?cs = "map coord_of ?ls"
  have valid: "\<forall>l \<in> set ?ls. valid_line l"
    using assms(1) by (simp add: bounded_line_valid)
  then have read: "parse_lines ?ls [] = Inr ?cs"
    using parse_lines_valid [of ?ls "[]"] by simp
  have ne: "?ls \<noteq> []"
    using assms(2) by auto
  then have ends_in: "hd ?ls \<in> set ?ls" "last ?ls \<in> set ?ls"
    by simp_all
  have ends: "hd ?cs = coord_of (hd ?ls)" "last ?cs = coord_of (last ?ls)"
    using ne by (simp_all add: hd_map last_map)
  have "in_bounds (hd ?cs)" "in_bounds (last ?cs)"
    using valid ends_in unfolding ends by (simp_all add: valid_line_in_bounds)
  then have "list_eq (hd ?cs) (last ?cs) \<longleftrightarrow> coord_of (hd ?ls) = coord_of (last ?ls)"
    using ends by (simp add: list_eq_in_bounds)
  also have "\<dots> \<longleftrightarrow> line_coordinate (hd ?ls) = line_coordinate (last ?ls)"
    using assms(1) ends_in by (intro bounded_line_coord) simp_all
  finally have eq: "list_eq (hd ?cs) (last ?cs)
      \<longleftrightarrow> line_coordinate (hd ?ls) = line_coordinate (last ?ls)" .
  have "parse_coordinates text
          = (if line_coordinate (hd ?ls) = line_coordinate (last ?ls)
             then Inr ?cs else Inr (?cs @ [hd ?cs]))"
    using read assms(2) eq ne by (simp add: parse_coordinates_lines)
  then show ?thesis
    by auto
qed

theorem parse_coordinates_length_witness:
  "length (coordinate_lines triangle_in_text_area) = 3
   \<and> list_all bounded_line (coordinate_lines triangle_in_text_area)
   \<and> (\<exists>cs. parse_coordinates triangle_in_text_area = Inr cs \<and> length cs = 4)"
proof -
  have lines: "coordinate_lines triangle_in_text_area
      = [''-21.0,139.0'', ''-21.0, 141.0'', ''-20.0,141.0'']"
    by code_simp
  show ?thesis
    using parse_coordinates_length [of triangle_in_text_area]
          lines sample_lines_bounded sample_line_coordinates
    by (simp add: eval_nat_numeral)
qed

text \<open>
  C1 as stated adds the closing element whenever the first and last lines differ. The
  lines \<open>-21.0,139.0\<close> and \<open>-21,139\<close> differ and denote the same coordinate: the four
  valid lines below give four elements, not five.
\<close>

theorem equal_coordinates_on_different_lines:
  "list_all valid_line (split newline reworded_closure)
   \<and> list_all bounded_line (split newline reworded_closure)
   \<and> length (split newline reworded_closure) = 4
   \<and> coordinate_lines reworded_closure = split newline reworded_closure
   \<and> hd (split newline reworded_closure) \<noteq> last (split newline reworded_closure)
   \<and> parse_coordinates reworded_closure
       = Inr [[Finite (- 21), Finite 139], [Finite (- 21), Finite 141], [Finite (- 20), Finite 141],
              [Finite (- 21), Finite 139]]
   \<and> length [[Finite (- 21), Finite 139], [Finite (- 21), Finite 141], [Finite (- 20), Finite 141],
              [Finite (- 21), Finite 139 :: pyfloat]] \<noteq> 4 + 1"
proof -
  have lines: "split newline reworded_closure
      = [''-21.0,139.0'', ''-21.0,141.0'', ''-20.0,141.0'', ''-21,139'']"
    by code_simp
  have clines: "coordinate_lines reworded_closure
      = [''-21.0,139.0'', ''-21.0,141.0'', ''-20.0,141.0'', ''-21,139'']"
    by code_simp
  have "parse_coordinates reworded_closure
       = Inr [[Finite (- 21), Finite 139], [Finite (- 21), Finite 141], [Finite (- 20), Finite 141],
              [Finite (- 21), Finite 139]]"
    by code_simp
  then show ?thesis
    using lines clines valid_sample_lines sample_lines_bounded by simp
qed

text \<open>
  C2. Every coordinate of a result of the parser is a pair of finite values with the
  latitude in [-29, -10] and the longitude in [138, 154]. A text with a coordinate line
  whose latitude is out of this range fails; when the lines before are valid and the
  longitude is a float, the error names the line, the field (latitude) and the value,
  which for the latitude -30.0 reads "Latitude -30.0 outside Queensland range (-29 to -10)".
\<close>

theorem coordinates_in_bounds_or_failure:
  "(parse_coordinates text = Inr cs \<longrightarrow> (\<forall>c \<in> set cs. in_bounds c))
   \<and> (l \<in> set (coordinate_lines bad) \<and> split comma l = [lat_str, lon_str]
        \<and> py_float (strip lat_str) = Some lat
        \<and> \<not> (int_le_float (- 29) lat \<and> float_le_int lat (- 10))
      \<longrightarrow> (\<exists>e. parse_coordinates bad = Inl e))
   \<and> (coordinate_lines bad = pre @ l # post \<and> (\<forall>p \<in> set pre. valid_line p)
        \<and> split comma l = [lat_str, lon_str]
        \<and> py_float (strip lat_str) = Some lat
        \<and> \<not> (int_le_float (- 29) lat \<and> float_le_int lat (- 10))
        \<and> py_float (strip lon_str) = Some lon
      \<longrightarrow> parse_coordinates bad
            = Inl (ValueError (''Error parsing line '' @ [quote] @ l @ [quote] @ '': ''
                @ ''Latitude '' @ float_repr lat @ '' outside Queensland range (-29 to -10)'')))"
proof (intro conjI impI)
  assume "parse_coordinates text = Inr cs"
  then show "\<forall>c \<in> set cs. in_bounds c"
    by (rule parse_coordinates_in_bounds)
next
  assume a: "l \<in> set (coordinate_lines bad) \<and> split comma l = [lat_str, lon_str]
        \<and> py_float (strip lat_str) = Some lat
        \<and> \<not> (int_le_float (- 29) lat \<and> float_le_int lat (- 10))"
  then have "strip l = l"
    using coordinate_lines_stripped by blast
  moreover have "\<exists>e. parse_line l = Inl e"
    using a by (intro out_of_range_latitude(1)) auto
  ultimately have "\<not> valid_line l"
    by (auto simp: valid_line_def)
  then show "\<exists>e. parse_coordinates bad = Inl e"
    using a parse_coordinates_failure by blast
next
  assume a: "coordinate_lines bad = pre @ l # post \<and> (\<forall>p \<in> set pre. valid_line p)
        \<and> split comma l = [lat_str, lon_str]
        \<and> py_float (strip lat_str) = Some lat
        \<and> \<not> (int_le_float (- 29) lat \<and> float_le_int lat (- 10))
        \<and> py_float (strip lon_str) = Some lon"
  then have "parse_line l
      = Inl (ValueError (''Error parsing line '' @ [quote] @ l @ [quote] @ '': ''
          @ ''Latitude '' @ float_repr lat @ '' outside Queensland range (-29 to -10)''))"
    by (intro out_of_range_latitude(2)) auto
  then show "parse_coordinates bad
      = Inl (ValueError (''Error parsing line '' @ [quote] @ l @ [quote] @ '': ''
          @ ''Latitude '' @ float_repr lat @ '' outside Queensland range (-29 to -10)''))"
    using a by (intro parse_coordinates_first_error) auto
qed

theorem coordinates_in_bounds_or_failure_witness:
  "list_all in_bounds
     [[Finite (- 21), Finite 139], [Finite (- 21), Finite 141], [Finite (- 20), Finite 141],
      [Finite (- 20), Finite 139], [Finite (- 21), Finite 139]]
   \<and> parse_coordinates latitude_too_low
     = Inl (ValueError
         ''Error parsing line '-30.0,141.0': Latitude -30.0 outside Queensland range (-29 to -10)'')"
proof -
  have lines: "coordinate_lines latitude_too_low = [''-21.0,139.0''] @ ''-30.0,141.0'' # [''-20.0,141.0'']"
    by code_simp
  have parts: "split comma ''-30.0,141.0'' = [''-30.0'', ''141.0'']"
    by code_simp
  have floats: "py_float (strip ''-30.0'') = Some (Finite (- 30))"
    "py_float (strip ''141.0'') = Some (Finite 141)"
    by code_simp+
  have repr: "float_repr (Finite (- 30)) = ''-30.0''"
    by code_simp
  have "parse_coordinates latitude_too_low
      = Inl (ValueError (''Error parsing line '' @ [quote] @ ''-30.0,141.0'' @ [quote] @ '': ''
          @ ''Latitude '' @ float_repr (Finite (- 30))
          @ '' outside Queensland range (-29 to -10)''))"
    using coordinates_in_bounds_or_failure
            [of example_coords
               "[[Finite (- 21), Finite 139], [Finite (- 21), Finite 141],
                 [Finite (- 20), Finite 141], [Finite (- 20), Finite 139],
                 [Finite (- 21), Finite 139]]"
               "''-30.0,141.0''" latitude_too_low "''-30.0''" "''141.0''" "Finite (- 30)"
               "[''-21.0,139.0'']" "[''-20.0,141.0'']" "Finite 141"]
          lines parts floats valid_sample_lines
    by (simp del: split.simps)
  moreover have "list_all in_bounds
     [[Finite (- 21), Finite 139], [Finite (- 21), Finite 141], [Finite (- 20), Finite 141],
      [Finite (- 20), Finite 139], [Finite (- 21), Finite 139]]"
    using coordinates_in_bounds_or_failure
            [of example_coords
               "[[Finite (- 21), Finite 139], [Finite (- 21), Finite 141],
                 [Finite (- 20), Finite 141], [Finite (- 20), Finite 139],
                 [Finite (- 21), Finite 139]]"]
          example_closed
    by simp
  ultimately show ?thesis
    unfolding repr quote_def by simp
qed

text \<open>
  C7. A text with a coordinate line that does not have exactly one separator fails; when
  the lines before are valid and the line has no separator at all, the error is the
  format error, which names the line.
\<close>

theorem malformed_line_fails:
  "(l \<in> set (coordinate_lines text) \<and> count_list l comma \<noteq> 1
      \<longrightarrow> (\<exists>e. parse_coordinates text = Inl e))
   \<and> (coordinate_lines text = pre @ m # post \<and> (\<forall>p \<in> set pre. valid_line p)
        \<and> comma \<notin> set m
      \<longrightarrow> parse_coordinates text
            = Inl (ValueError (''Invalid format: '' @ m @ ''. Use latitude,longitude'')))"
proof (intro conjI impI)
  assume a: "l \<in> set (coordinate_lines text) \<and> count_list l comma \<noteq> 1"
  then have "strip l = l"
    using coordinate_lines_stripped by blast
  then have "\<not> valid_line l"
    using a valid_line_one_comma by blast
  then show "\<exists>e. parse_coordinates text = Inl e"
    using a parse_coordinates_failure by blast
next
  assume a: "coordinate_lines text = pre @ m # post \<and> (\<forall>p \<in> set pre. valid_line p)
        \<and> comma \<notin> set m"
  then have "parse_line m = Inl (ValueError (''Invalid format: '' @ m @ ''. Use latitude,longitude''))"
    by (simp add: parse_line_def)
  then show "parse_coordinates text
      = Inl (ValueError (''Invalid format: '' @ m @ ''. Use latitude,longitude''))"
    using a by (intro parse_coordinates_first_error) auto
qed

theorem malformed_line_fails_witness:
  "count_list ''-20.0,141.0,5'' comma = 2
   \<and> parse_coordinates malformed_lines
     = Inl (ValueError ''Invalid format: -21.0 139.0. Use latitude,longitude'')"
proof -
  have lines: "coordinate_lines malformed_lines
      = [''-21.0,139.0''] @ ''-21.0 139.0'' # [''-20.0,141.0,5'']"
    by code_simp
  have commas: "count_list ''-20.0,141.0,5'' comma = 2" "comma \<notin> set ''-21.0 139.0''"
    by code_simp+
  show ?thesis
    using malformed_line_fails
            [of "''-20.0,141.0,5''" malformed_lines "[''-21.0,139.0'']" "''-21.0 139.0''" "[''-20.0,141.0,5'']"]
          lines commas valid_sample_lines
    by (simp del: count_list.simps)
qed

section \<open>The axis swap\<close>

lemma convert_pairs:
  "\<forall>c \<in> set cs. length c = 2 \<Longrightarrow>
     convert_latlon_to_lonlat cs = Inr (map (\<lambda>c. [c ! 1, c ! 0]) cs)"
  by (induction cs) auto

lemma swap_twice:
  "length c = 2 \<Longrightarrow> [c ! 0, c ! Suc 0] = c"
  by (cases c; cases "tl c") auto

text \<open>
  C9. The conversion is an involution on lists of pairs: applied to a list of coordinates
  with two components each it succeeds, and applied to its own result it gives the
  original list back.
\<close>

theorem convert_latlon_to_lonlat_involution:
  assumes "\<forall>c \<in> set cs. length c = 2"
  shows "\<exists>ds. convert_latlon_to_lonlat cs = Inr ds \<and> convert_latlon_to_lonlat ds = Inr cs"
proof -
  let ?ds = "map (\<lambda>c. [c ! 1, c ! 0]) cs"
  have first: "convert_latlon_to_lonlat cs = Inr ?ds"
    using assms by (rule convert_pairs)
  have "\<forall>d \<in> set ?ds. length d = 2"
    by simp
  then have "convert_latlon_to_lonlat ?ds = Inr (map (\<lambda>c. [c ! 1, c ! 0]) ?ds)"
    by (rule convert_pairs)
  moreover have "map (\<lambda>c. [c ! 1, c ! 0]) ?ds = cs"
    using assms by (induction cs) (simp_all add: swap_twice)
  ultimately show ?thesis
    using first by simp
qed

theorem convert_latlon_to_lonlat_involution_witness:
  "length [Finite (- 21), Finite 139] = 2 \<and> length [Finite (- 20), Finite 141] = 2
   \<and> convert_latlon_to_lonlat [[Finite (- 21), Finite 139], [Finite (- 20), Finite 141]]
       = Inr [[Finite 139, Finite (- 21)], [Finite 141, Finite (- 20)]]
   \<and> convert_latlon_to_lonlat [[Finite 139, Finite (- 21)], [Finite 141, Finite (- 20)]]
       = Inr [[Finite (- 21), Finite 139], [Finite (- 20), Finite 141]]"
  using convert_latlon_to_lonlat_involution
          [of "[[Finite (- 21), Finite 139], [Finite (- 20), Finite 141]]"]
  by simp

lemma in_bounds_swap: "in_bounds c \<Longrightarrow> length c = 2 \<and> [c ! Suc 0, c ! 0] = swap_axes c"
  by (cases c rule: in_bounds.cases) auto

text \<open>
  C6. The line \<open>-21.0,139.0\<close> parses to the coordinate with latitude -21.0 and longitude
  139.0, whose counterpart in the other order is (139.0, -21.0); and on every result of
  the parser the conversion succeeds and is the swap of each pair, element by element:
  every element is a pair, and the converted list is the list of the swapped pairs, so
  it has the same length and the same order.
\<close>

theorem line_parses_and_axes_swap:
  "parse_line ''-21.0,139.0'' = Inr [Finite (- 21), Finite 139]
   \<and> convert_latlon_to_lonlat [[Finite (- 21), Finite 139]] = Inr [[Finite 139, Finite (- 21)]]
   \<and> (parse_coordinates text = Inr cs \<longrightarrow>
        (\<forall>c \<in> set cs. \<exists>lat lon. c = [lat, lon])
        \<and> convert_latlon_to_lonlat cs = Inr (map swap_axes cs)
        \<and> length (map swap_axes cs) = length cs)"
proof (intro conjI impI)
  show "parse_line ''-21.0,139.0'' = Inr [Finite (- 21), Finite 139]"
    by code_simp
  show "convert_latlon_to_lonlat [[Finite (- 21), Finite 139]] = Inr [[Finite 139, Finite (- 21)]]"
    by simp
next
  assume "parse_coordinates text = Inr cs"
  then have bounds: "\<forall>c \<in> set cs. in_bounds c"
    by (rule parse_coordinates_in_bounds)
  then show "\<forall>c \<in> set cs. \<exists>lat lon. c = [lat, lon]"
    by (meson in_bounds_pair)
  have "\<forall>c \<in> set cs. length c = 2"
    using bounds by (simp add: in_bounds_swap)
  then have "convert_latlon_to_lonlat cs = Inr (map (\<lambda>c. [c ! 1, c ! 0]) cs)"
    by (rule convert_pairs)
  moreover have "map (\<lambda>c. [c ! 1, c ! 0]) cs = map swap_axes cs"
    using bounds by (simp add: in_bounds_swap)
  ultimately show "convert_latlon_to_lonlat cs = Inr (map swap_axes cs)"
    by simp
  show "length (map swap_axes cs) = length cs"
    by simp
qed

theorem line_parses_and_axes_swap_witness:
  "convert_latlon_to_lonlat
     [[Finite (- 21), Finite 139], [Finite (- 21), Finite 141], [Finite (- 20), Finite 141],
      [Finite (- 20), Finite 139], [Finite (- 21), Finite 139]]
   = Inr [[Finite 139, Finite (- 21)], [Finite 141, Finite (- 21)], [Finite 141, Finite (- 20)],
          [Finite 139, Finite (- 20)], [Finite 139, Finite (- 21)]]"
  using line_parses_and_axes_swap
 [of example_coords
              "[[Finite (- 21), Finite 139], [Finite (- 21), Finite 141],
                [Finite (- 20), Finite 141], [Finite (- 20), Finite 139],
                [Finite (- 21), Finite 139]]"]
        example_closed
  by simp

section \<open>Properties of the configuration summary\<close>

lemma search_terms_known:
  assumes "search_mode_var f = ''suggested'' \<longrightarrow> data_type_var f \<in> fst ` set data_types"
  shows "\<exists>ts. search_terms_of f = Inr ts"
proof (cases "search_mode_var f = ''suggested''")
  case True
  then have "map_of data_types (data_type_var f) \<noteq> None"
    using assms by (simp add: map_of_eq_None_iff)
  then show ?thesis
    using True by (auto simp: search_terms_of_def)
next
  case False
  then show ?thesis
    by (simp add: search_terms_of_def Let_def)
qed

text \<open>
  C8. \<open>update_summary\<close> never raises: in every state of the form it returns the new content
  of the summary area. When the coordinate text does not parse, whatever the error, and
  the data type is one of the names of the table (the read-only list of the form offers
  no other) or the suggested terms are not used, the content is the filled template,
  whose coordinate line reads "Invalid or missing coordinates".
\<close>

theorem update_summary_never_raises:
  "(\<exists>s. update_summary f = Inr s)
   \<and> (parse_coordinates (coords_text f) = Inl e
        \<and> (search_mode_var f = ''suggested'' \<longrightarrow> data_type_var f \<in> fst ` set data_types)
      \<longrightarrow> (\<exists>s. update_summary f = Inr (Summary s)
               \<and> coordinates s = ''Invalid or missing coordinates''))"
proof (intro conjI impI)
  show "\<exists>s. update_summary f = Inr s"
    by (cases "summary_body f") (simp_all add: update_summary_def)
next
  assume a: "parse_coordinates (coords_text f) = Inl e
        \<and> (search_mode_var f = ''suggested'' \<longrightarrow> data_type_var f \<in> fst ` set data_types)"
  then obtain ts where "search_terms_of f = Inr ts"
    using search_terms_known by blast
  moreover have "coords_info_of f = ''Invalid or missing coordinates''"
    using a by (simp add: coords_info_of_def)
  ultimately show "\<exists>s. update_summary f = Inr (Summary s)
               \<and> coordinates s = ''Invalid or missing coordinates''"
    by (simp add: update_summary_def summary_body_def)
qed

lemma update_summary_sample:
  "update_summary sample_form
     = Inr (Summary
         \<lparr>search_area = ''Custom Polygon'',
          coordinates = ''Invalid or missing coordinates'',
          data_type = ''Geochemistry Data'',
          search_terms = ''geochemistry OR chemical analysis OR assay'',
          file_formats = ''All Formats (Recommended)'',
          max_datasets = ''20'',
          output_directory = ''gsq_polygon_data'',
          precise_filtering = ''Yes'',
          preview_mode = ''No'',
          status = ''Ready for download''\<rparr>)"
  by code_simp

lemma update_summary_unknown_data_type:
  "update_summary (sample_form\<lparr>data_type_var := ''Other''\<rparr>)
     = Inr (ErrorText (''Error updating summary: '' @ [quote] @ ''Other'' @ [quote]))"
  by code_simp

theorem update_summary_never_raises_witness:
  "parse_coordinates (coords_text sample_form)
     = Inl (ValueError ''Invalid format: -21.0 139.0. Use latitude,longitude'')
   \<and> data_type_var sample_form \<in> fst ` set data_types
   \<and> (\<exists>s. update_summary sample_form = Inr (Summary s)
         \<and> coordinates s = ''Invalid or missing coordinates'')"
proof -
  have failure: "parse_coordinates (coords_text sample_form)
      = Inl (ValueError ''Invalid format: -21.0 139.0. Use latitude,longitude'')"
    by code_simp
  have known: "data_type_var sample_form \<in> fst ` set data_types"
    by (simp add: sample_form_def data_types_def)
  show ?thesis
    using update_summary_never_raises
            [of sample_form "ValueError ''Invalid format: -21.0 139.0. Use latitude,longitude''"]
          failure known
    by simp
qed

end
